theory Spec2Isabelle
  imports Main "HOL-Library.Product_Lexorder" "HOL-Library.List_Lexorder" "HOL-Library.Char_ord"
begin

section \<open>Python primitives used by the sources\<close>

text \<open>
  Exceptions of the sources, as values: a failing \<^verbatim>\<open>assert\<close> is \<open>AssertionError\<close>, a
  call with the wrong number of arguments is \<open>TypeError\<close>.
\<close>

datatype error = ValueError | IndexError | AssertionError | TypeError

text \<open>Python's normalisation of a slice bound against a sequence of length \<open>n\<close>.\<close>

definition py_bound :: "int \<Rightarrow> int \<Rightarrow> nat" where
  "py_bound n i = nat (if i < 0 then max (n + i) 0 else min i n)"

text \<open>\<^verbatim>\<open>xs[i:j]\<close>, negative bounds counted from the end, both bounds clipped.\<close>

definition py_slice :: "'a list \<Rightarrow> int \<Rightarrow> int \<Rightarrow> 'a list" where
  "py_slice xs i j =
     (let n = int (length xs); lo = py_bound n i; hi = py_bound n j
      in take (hi - lo) (drop lo xs))"

text \<open>\<^verbatim>\<open>xs[i]\<close>: a negative index counts from the end, an index out of range raises.\<close>

definition py_index :: "'a list \<Rightarrow> int \<Rightarrow> error + 'a" where
  "py_index xs i =
     (if 0 \<le> i \<and> i < int (length xs) then Inr (xs ! nat i)
      else if i < 0 \<and> - int (length xs) \<le> i then Inr (xs ! nat (int (length xs) + i))
      else Inl IndexError)"

text \<open>\<^verbatim>\<open>range(a, b)\<close> and \<^verbatim>\<open>k * [x]\<close> (empty for \<open>k \<le> 0\<close>).\<close>

definition py_range :: "int \<Rightarrow> int \<Rightarrow> int list" where
  "py_range a b = [a..b - 1]"

definition py_repeat :: "int \<Rightarrow> 'a \<Rightarrow> 'a list" where
  "py_repeat k x = replicate (nat k) x"

text \<open>
  \<^verbatim>\<open>bisect.bisect_left(a, x)\<close>: the binary search of the standard library, on whatever
  list it is given.
\<close>

function bisect_left_from :: "('a::linorder) list \<Rightarrow> 'a \<Rightarrow> nat \<Rightarrow> nat \<Rightarrow> nat" where
  "bisect_left_from a x lo hi =
     (if lo < hi
      then (let mid = (lo + hi) div 2
            in if a ! mid < x then bisect_left_from a x (mid + 1) hi
               else bisect_left_from a x lo mid)
      else lo)"
  by pat_completeness auto
termination
  by (relation "measure (\<lambda>(a, x, lo, hi). hi - lo)") auto

definition bisect_left :: "('a::linorder) list \<Rightarrow> 'a \<Rightarrow> nat" where
  "bisect_left a x = bisect_left_from a x 0 (length a)"


section \<open>Intervals, substitutions and the document\<close>

text \<open>
  An \<^verbatim>\<open>Interval\<close> is a pair of positions, ordered lexicographically; a substitution is
  a pair of an interval and its replacement, ordered as Python orders tuples.
\<close>

type_synonym Interval = "int \<times> int"
type_synonym substitution = "Interval \<times> string"

text \<open>
  The document as \<^verbatim>\<open>TextView\<close> reads it. \<^verbatim>\<open>doc.conceal.generate_local_substitutions(obeg, n)\<close>
  fills \<^verbatim>\<open>doc.conceal.local_substitutions\<close>; the concealment collaborator is not part of the
  sources, so the list it leaves behind is a field of the document, a function of the
  two arguments of the call.
\<close>

record document =
  doc_text :: string
  doc_selection :: "Interval list"
  doc_highlighting :: "int \<rightharpoonup> string"
  local_substitutions :: "int \<Rightarrow> int \<Rightarrow> substitution list"
  global_substitutions :: "substitution list"


section \<open>\<^verbatim>\<open>TextView._compute_text_from_orig_interval\<close>\<close>

text \<open>The sorted list of relevant substitutions (lines 347 to 358 of textview.py).\<close>

definition substitutions_for :: "document \<Rightarrow> int \<Rightarrow> int \<Rightarrow> substitution list" where
  "substitutions_for doc obeg o_sample_length =
     (let glob = global_substitutions doc;
          first_global_subst = bisect_left glob ((obeg, obeg), '''');
          last_global_subst =
            bisect_left glob ((obeg + o_sample_length, obeg + o_sample_length), '''')
      in sort (local_substitutions doc obeg o_sample_length
               @ py_slice glob (int first_global_subst) (int last_global_subst)))"

text \<open>The variables of the merge loop (lines 360 to 368).\<close>

record scan_state =
  vtext_builder :: "string list"
  vpos :: int
  opos :: int
  vpos_to_opos :: "int list"
  opos_to_vpos :: "int list"
  subst_index :: nat

definition scan_init :: "int \<Rightarrow> scan_state" where
  "scan_init obeg =
     \<lparr>vtext_builder = [], vpos = 0, opos = obeg, vpos_to_opos = [], opos_to_vpos = [],
      subst_index = 0\<rparr>"

text \<open>
  The body shared by the two copying branches: \<open>olength\<close> characters of the original
  text are copied, one mapping entry each way per position of the two ranges.
\<close>

definition copy_text :: "string \<Rightarrow> int \<Rightarrow> scan_state \<Rightarrow> scan_state" where
  "copy_text otext olength s =
     s\<lparr>vpos_to_opos := vpos_to_opos s @ py_range (opos s) (opos s + olength),
       opos_to_vpos := opos_to_vpos s @ py_range (vpos s) (vpos s + olength),
       vtext_builder := vtext_builder s @ [py_slice otext (opos s) (opos s + olength)],
       opos := opos s + olength,
       vpos := vpos s + olength\<rparr>"

text \<open>Lines 371 to 378: no substitution is left, the rest of the sample is copied.\<close>

definition copy_rest :: "string \<Rightarrow> int \<Rightarrow> int \<Rightarrow> scan_state \<Rightarrow> scan_state" where
  "copy_rest otext obeg o_sample_length s =
     copy_text otext
       (min (o_sample_length - (opos s - obeg)) (int (length otext) - (opos s - obeg))) s"

text \<open>Lines 384 to 391: the text before the next substitution is copied.\<close>

definition copy_gap :: "string \<Rightarrow> int \<Rightarrow> int \<Rightarrow> scan_state \<Rightarrow> scan_state" where
  "copy_gap otext o_sample_length sbeg s =
     copy_text otext (min (sbeg - opos s) (o_sample_length - vpos s)) s"

text \<open>Lines 393 to 401: the substitution is applied.\<close>

definition conceal_step :: "Interval \<Rightarrow> string \<Rightarrow> scan_state \<Rightarrow> scan_state" where
  "conceal_step iv replacement s =
     (let vlength = int (length replacement); olength = snd iv - fst iv
      in s\<lparr>vpos_to_opos := vpos_to_opos s @ py_repeat vlength (opos s),
           opos_to_vpos := opos_to_vpos s @ py_repeat olength (vpos s),
           vtext_builder := vtext_builder s @ [replacement],
           vpos := vpos s + vlength,
           opos := opos s + olength,
           subst_index := subst_index s + 1\<rparr>)"

text \<open>
  The \<^verbatim>\<open>while opos < obeg + o_sample_length\<close> loop (lines 369 to 401). It need not
  terminate, so not returning is the value \<open>None\<close>.
\<close>

partial_function (option) merge_scan ::
  "string \<Rightarrow> int \<Rightarrow> int \<Rightarrow> substitution list \<Rightarrow> scan_state \<Rightarrow> scan_state option" where
  "merge_scan otext obeg o_sample_length substitutions s =
     (if opos s < obeg + o_sample_length
      then (if subst_index s \<ge> length substitutions
            then Some (copy_rest otext obeg o_sample_length s)
            else (if fst (fst (substitutions ! subst_index s)) > opos s
                  then merge_scan otext obeg o_sample_length substitutions
                         (copy_gap otext o_sample_length
                            (fst (fst (substitutions ! subst_index s))) s)
                  else merge_scan otext obeg o_sample_length substitutions
                         (conceal_step (fst (substitutions ! subst_index s))
                            (snd (substitutions ! subst_index s)) s)))
      else Some s)"

declare merge_scan.simps [code]

text \<open>
  The whole function: the text, the forward mapping and the reverse mapping, each
  mapping with its sentinel (lines 403 to 414).
\<close>

definition compute_text_from_orig_interval ::
  "document \<Rightarrow> int \<Rightarrow> int \<Rightarrow> (string \<times> int list \<times> int list) option" where
  "compute_text_from_orig_interval doc obeg o_sample_length =
     (case merge_scan (doc_text doc) obeg o_sample_length
             (substitutions_for doc obeg o_sample_length) (scan_init obeg) of
        None \<Rightarrow> None
      | Some s \<Rightarrow>
          (let vtext = concat (vtext_builder s)
           in Some (vtext, opos_to_vpos s @ [int (length vtext)],
                    vpos_to_opos s @ [o_sample_length])))"


section \<open>\<^verbatim>\<open>TextView._compute_text_from_view_interval\<close>\<close>

text \<open>
  The three functions imported from \<^verbatim>\<open>.navigation\<close> are not part of the sources; the
  view construction takes them as a parameter.
\<close>

record navigation =
  count_wrapped_lines :: "string \<Rightarrow> int \<Rightarrow> int"
  move_n_wrapped_lines_down :: "string \<Rightarrow> int \<Rightarrow> int \<Rightarrow> int \<Rightarrow> int"
  next_beg_of_wrapped_line :: "string \<Rightarrow> int \<Rightarrow> int \<Rightarrow> int"

text \<open>
  The sample-doubling loop (lines 301 to 305); the state is the sample length and the
  result of the last single-pass computation.
\<close>

partial_function (option) sample_loop ::
  "navigation \<Rightarrow> document \<Rightarrow> int \<Rightarrow> int \<Rightarrow> int \<Rightarrow> int \<Rightarrow> string \<times> int list \<times> int list
     \<Rightarrow> (int \<times> string \<times> int list \<times> int list) option" where
  "sample_loop nav doc width height obeg o_sample_length cur =
     (if count_wrapped_lines nav (fst cur) width < height
         \<and> obeg + o_sample_length < int (length (doc_text doc))
      then (case compute_text_from_orig_interval doc obeg (o_sample_length * 2) of
              None \<Rightarrow> None
            | Some cur' \<Rightarrow>
                sample_loop nav doc width height obeg (o_sample_length * 2) cur')
      else Some (o_sample_length, cur))"

declare sample_loop.simps [code]

text \<open>Lines 310 to 316: the exact length of view text the screen requires.\<close>

definition required_length :: "navigation \<Rightarrow> int \<Rightarrow> int \<Rightarrow> string \<Rightarrow> int" where
  "required_length nav width height vtext =
     (let beg_last_line = move_n_wrapped_lines_down nav vtext width 0 (height - 1);
          required_length0 = next_beg_of_wrapped_line nav vtext width beg_last_line
      in if required_length0 = beg_last_line then int (length vtext) else required_length0)"

text \<open>Lines 318 to 337: the self-check, the second sentinels, the truncation, the asserts.\<close>

definition snap_to_required_length ::
  "navigation \<Rightarrow> int \<Rightarrow> int \<Rightarrow> int \<times> string \<times> int list \<times> int list
     \<Rightarrow> error + (string \<times> int list \<times> int list)" where
  "snap_to_required_length nav width height r =
     (case r of (o_sample_length, vtext, opos_to_vpos0, vpos_to_opos0) \<Rightarrow>
        (let required_length1 = required_length nav width height vtext
         in if \<not> required_length1 > int (length vtext) div 2 then Inl AssertionError
            else
              (let opos_to_vpos1 = opos_to_vpos0 @ [int (length vtext)];
                   vpos_to_opos1 = vpos_to_opos0 @ [o_sample_length];
                   text = py_slice vtext 0 required_length1;
                   origpos_to_viewpos = py_slice opos_to_vpos1 0 (required_length1 + 1);
                   viewpos_to_origpos = vpos_to_opos1
               in if int (length text) \<noteq> required_length1 then Inl AssertionError
                  else if int (length origpos_to_viewpos) \<noteq> required_length1 + 1
                  then Inl AssertionError
                  else Inr (text, origpos_to_viewpos, viewpos_to_origpos))))"

definition compute_text_from_view_interval ::
  "navigation \<Rightarrow> document \<Rightarrow> int \<Rightarrow> int \<Rightarrow> int
     \<Rightarrow> (error + (string \<times> int list \<times> int list)) option" where
  "compute_text_from_view_interval nav doc width height offset =
     (let otext = doc_text doc; obeg = offset
      in if int (length otext) - obeg = 0 then Some (Inr ('''', [0], [0]))
         else if int (length otext) - obeg < 0 then Some (Inl ValueError)
         else
           (case compute_text_from_orig_interval doc obeg 1 of
              None \<Rightarrow> None
            | Some cur \<Rightarrow>
                (case py_index (fst (snd cur)) 0 of
                   Inl e \<Rightarrow> Some (Inl e)
                 | Inr v \<Rightarrow>
                     if \<not> v \<ge> 0 then Some (Inl AssertionError)
                     else
                       (case sample_loop nav doc width height obeg 1 cur of
                          None \<Rightarrow> None
                        | Some r \<Rightarrow> Some (snap_to_required_length nav width height r)))))"


section \<open>Selection and highlighting of a view\<close>

text \<open>
  Modelled from the spec: \<^verbatim>\<open>Interval\<close> and \<^verbatim>\<open>Selection\<close> (module
  \<^verbatim>\<open>selection\<close>) are not part of the sources. Constructing an interval fails unless
  \<open>begin \<le> end\<close>; a selection is the list of its intervals in position order;
  \<^verbatim>\<open>add\<close> keeps the order and merges the new interval with every interval it
  overlaps or touches.
\<close>

definition Interval :: "int \<Rightarrow> int \<Rightarrow> error + Interval" where
  "Interval b e = (if b \<le> e then Inr (b, e) else Inl AssertionError)"

fun add :: "Interval \<Rightarrow> Interval list \<Rightarrow> Interval list" where
  "add iv [] = [iv]"
| "add iv (iv' # rest) =
     (if snd iv < fst iv' then iv # iv' # rest
      else if snd iv' < fst iv then iv' # add iv rest
      else add (min (fst iv) (fst iv'), max (snd iv) (snd iv')) rest)"

text \<open>The body of the \<^verbatim>\<open>for beg, end in self.doc.selection\<close> loop (lines 449 to 462).\<close>

definition project_interval ::
  "int \<Rightarrow> int list \<Rightarrow> int \<Rightarrow> int \<Rightarrow> Interval \<Rightarrow> Interval list \<Rightarrow> error + Interval list" where
  "project_interval offset opos_to_vpos0 o_viewbeg o_viewend iv selectionview =
     (case iv of (beg0, end0) \<Rightarrow>
        if (beg0 < o_viewend \<and> o_viewbeg < end0)
           \<or> (beg0 = end0 \<and> end0 = o_viewbeg) \<or> (beg0 = end0 \<and> end0 = o_viewend)
        then (let beg1 = max beg0 o_viewbeg; end1 = min o_viewend end0
              in if \<not> beg1 \<le> end1 then Inl AssertionError
                 else
                   (case py_index opos_to_vpos0 (beg1 - offset) of
                      Inl e \<Rightarrow> Inl e
                    | Inr vbeg \<Rightarrow>
                        (case py_index opos_to_vpos0 (end1 - offset) of
                           Inl e \<Rightarrow> Inl e
                         | Inr vend \<Rightarrow>
                             (case Interval vbeg vend of
                                Inl e \<Rightarrow> Inl e
                              | Inr viv \<Rightarrow> Inr (add viv selectionview)))))
        else Inr selectionview)"

fun project_intervals ::
  "int \<Rightarrow> int list \<Rightarrow> int \<Rightarrow> int \<Rightarrow> Interval list \<Rightarrow> Interval list \<Rightarrow> error + Interval list" where
  "project_intervals offset opos_to_vpos0 o_viewbeg o_viewend [] selectionview =
     Inr selectionview"
| "project_intervals offset opos_to_vpos0 o_viewbeg o_viewend (iv # ivs) selectionview =
     (case project_interval offset opos_to_vpos0 o_viewbeg o_viewend iv selectionview of
        Inl e \<Rightarrow> Inl e
      | Inr selectionview' \<Rightarrow>
          project_intervals offset opos_to_vpos0 o_viewbeg o_viewend ivs selectionview')"

text \<open>\<^verbatim>\<open>TextView._compute_selection\<close> without its decorator (lines 443 to 464).\<close>

definition compute_selection_body ::
  "document \<Rightarrow> int \<Rightarrow> string \<Rightarrow> int list \<Rightarrow> int list \<Rightarrow> error + Interval list" where
  "compute_selection_body doc offset text origpos_to_viewpos viewpos_to_origpos =
     (if length origpos_to_viewpos \<noteq> length text + 1 then Inl AssertionError
      else
        (case py_index viewpos_to_origpos 0 of
           Inl e \<Rightarrow> Inl e
         | Inr o_viewbeg \<Rightarrow>
             (case py_index viewpos_to_origpos (- 1) of
                Inl e \<Rightarrow> Inl e
              | Inr o_viewend \<Rightarrow>
                  project_intervals offset origpos_to_viewpos o_viewbeg o_viewend
                    (doc_selection doc) [])))"

text \<open>\<^verbatim>\<open>_compute_selectionview_post\<close> (lines 163 to 165): every assert holds.\<close>

definition compute_selectionview_post :: "Interval list \<Rightarrow> string \<Rightarrow> bool" where
  "compute_selectionview_post result text =
     list_all (\<lambda>iv. 0 \<le> fst iv \<and> fst iv \<le> snd iv \<and> snd iv \<le> int (length text)) result"

text \<open>
  \<^verbatim>\<open>_compute_selection\<close> as decorated with \<^verbatim>\<open>@post(_compute_selectionview_post)\<close>: the
  postcondition is run on the result, which is then returned (module \<^verbatim>\<open>contract\<close> is
  not part of the sources).
\<close>

definition compute_selection ::
  "document \<Rightarrow> int \<Rightarrow> string \<Rightarrow> int list \<Rightarrow> int list \<Rightarrow> error + Interval list" where
  "compute_selection doc offset text origpos_to_viewpos viewpos_to_origpos =
     (case compute_selection_body doc offset text origpos_to_viewpos viewpos_to_origpos of
        Inl e \<Rightarrow> Inl e
      | Inr result \<Rightarrow>
          if compute_selectionview_post result text then Inr result else Inl AssertionError)"

text \<open>\<^verbatim>\<open>TextView._compute_highlighting\<close> (lines 425 to 433), one view position at a time.\<close>

fun highlight_positions :: "document \<Rightarrow> int list \<Rightarrow> nat list \<Rightarrow> error + string list" where
  "highlight_positions doc viewpos_to_origpos [] = Inr []"
| "highlight_positions doc viewpos_to_origpos (i # rest) =
     (case py_index viewpos_to_origpos (int i) of
        Inl e \<Rightarrow> Inl e
      | Inr opos0 \<Rightarrow>
          (case highlight_positions doc viewpos_to_origpos rest of
             Inl e \<Rightarrow> Inl e
           | Inr tags \<Rightarrow>
               Inr ((case doc_highlighting doc opos0 of Some tag \<Rightarrow> tag | None \<Rightarrow> '''')
                    # tags)))"

definition compute_highlighting :: "document \<Rightarrow> string \<Rightarrow> int list \<Rightarrow> error + string list" where
  "compute_highlighting doc text viewpos_to_origpos =
     highlight_positions doc viewpos_to_origpos [0..<length text]"


section \<open>The two constructors of \<^verbatim>\<open>TextView\<close>\<close>

record textview =
  view_text :: string
  view_selection :: "Interval list"
  view_highlighting :: "string list"
  viewpos_to_origpos :: "int list"
  origpos_to_viewpos :: "int list"

text \<open>The last three assignments of both constructors (lines 236 to 241, 253 to 258).\<close>

definition finish_view ::
  "document \<Rightarrow> int \<Rightarrow> string \<times> int list \<times> int list \<Rightarrow> error + textview" where
  "finish_view doc offset r =
     (case r of (text, o2v, v2o) \<Rightarrow>
        (case compute_selection doc offset text o2v v2o of
           Inl e \<Rightarrow> Inl e
         | Inr sel \<Rightarrow>
             (case compute_highlighting doc text v2o of
                Inl e \<Rightarrow> Inl e
              | Inr hl \<Rightarrow>
                  Inr \<lparr>view_text = text, view_selection = sel, view_highlighting = hl,
                       viewpos_to_origpos = v2o, origpos_to_viewpos = o2v\<rparr>)))"

definition for_screen ::
  "navigation \<Rightarrow> document \<Rightarrow> int \<Rightarrow> int \<Rightarrow> int \<Rightarrow> (error + textview) option" where
  "for_screen nav doc width height offset =
     (if width \<le> 0 then Some (Inl ValueError)
      else if height \<le> 0 then Some (Inl ValueError)
      else if offset < 0 \<or> offset > int (length (doc_text doc)) then Some (Inl ValueError)
      else
        (case compute_text_from_view_interval nav doc width height offset of
           None \<Rightarrow> None
         | Some (Inl e) \<Rightarrow> Some (Inl e)
         | Some (Inr r) \<Rightarrow> Some (finish_view doc offset r)))"

definition for_entire_text :: "document \<Rightarrow> int \<Rightarrow> (error + textview) option" where
  "for_entire_text doc width =
     (if width \<le> 0 then Some (Inl ValueError)
      else
        (case compute_text_from_orig_interval doc 0 (int (length (doc_text doc))) of
           None \<Rightarrow> None
         | Some r \<Rightarrow> Some (finish_view doc 0 r)))"


section \<open>text.py: \<^verbatim>\<open>StringText\<close> and \<^verbatim>\<open>PartialText\<close>\<close>

text \<open>
  A transformation as \<^verbatim>\<open>transform\<close> reads it: its selection, the content recorded when
  it was built, one replacement per interval, and the caller-supplied \<^verbatim>\<open>validate\<close> hook:
  \<open>None\<close> when the hook returns, \<open>Some e\<close> when it raises \<open>e\<close>. The class is not part of
  the sources.
\<close>

record transformation =
  tr_selection :: "Interval list"
  original_content :: "string list"
  replacements :: "string list"
  validate :: "string \<Rightarrow> error option"

text \<open>A list comprehension over a lookup that may raise: the first error wins.\<close>

fun map_result :: "('a \<Rightarrow> error + 'b) \<Rightarrow> 'a list \<Rightarrow> error + 'b list" where
  "map_result f [] = Inr []"
| "map_result f (x # xs) =
     (case f x of
        Inl e \<Rightarrow> Inl e
      | Inr y \<Rightarrow> (case map_result f xs of Inl e \<Rightarrow> Inl e | Inr ys \<Rightarrow> Inr (y # ys)))"

text \<open>
  Modelled from the spec: \<^verbatim>\<open>Selection.content\<close> and \<^verbatim>\<open>Selection.partition\<close> (module
  \<^verbatim>\<open>selection\<close>) are not part of the sources. \<open>content\<close> is the ordered list of the
  substrings of the intervals, read through the text's own indexing; \<open>partition\<close> is an
  ordered sequence of runs covering \<open>[0, length)\<close>, unselected and selected runs
  alternating, empty runs included.
\<close>

definition content :: "(Interval \<Rightarrow> error + string) \<Rightarrow> Interval list \<Rightarrow> error + string list" where
  "content getitem sel = map_result getitem sel"

fun partition_from :: "int \<Rightarrow> Interval list \<Rightarrow> int \<Rightarrow> (bool \<times> Interval) list" where
  "partition_from pos [] n = [(False, (pos, n))]"
| "partition_from pos (iv # rest) n =
     (False, (pos, fst iv)) # (True, iv) # partition_from (snd iv) rest n"

definition partition :: "Interval list \<Rightarrow> nat \<Rightarrow> (bool \<times> Interval) list" where
  "partition sel n = partition_from 0 sel (int n)"

text \<open>\<^verbatim>\<open>StringText.__getitem__\<close> on an interval (lines 31 to 33).\<close>

definition StringText_getitem :: "string \<Rightarrow> Interval \<Rightarrow> string" where
  "StringText_getitem str iv = py_slice str (fst iv) (snd iv)"

text \<open>
  What \<^verbatim>\<open>StringText.transform\<close> has in hand while it runs: the text it was called on
  and its two local variables. A call ends with an outcome and this state, whether it
  returns or raises.
\<close>

record transform_state =
  st_self :: string
  st_count :: nat
  st_result :: "string list"

text \<open>The loop of \<^verbatim>\<open>StringText.transform\<close> (lines 52 to 59).\<close>

fun replace_runs ::
  "(bool \<times> string) list \<Rightarrow> string list \<Rightarrow> transform_state \<Rightarrow> error option \<times> transform_state" where
  "replace_runs [] reps st = (None, st)"
| "replace_runs (run # rest) reps st =
     (if fst run
      then (case py_index reps (int (st_count st)) of
              Inl e \<Rightarrow> (Some e, st)
            | Inr r \<Rightarrow>
                replace_runs rest reps
                  (st\<lparr>st_result := st_result st @ [r], st_count := st_count st + 1\<rparr>))
      else replace_runs rest reps (st\<lparr>st_result := st_result st @ [snd run]\<rparr>))"

text \<open>
  The body of \<^verbatim>\<open>StringText.transform\<close> (lines 40 to 61): the outcome, and the text the
  method was called on as it is when the call ends. \<^verbatim>\<open>self[interval]\<close> is dispatched on
  the class of \<^verbatim>\<open>self\<close>, so the lookup is an argument.
\<close>

definition transform_with ::
  "(Interval \<Rightarrow> error + string) \<Rightarrow> string \<Rightarrow> transformation \<Rightarrow> (error + string) \<times> string" where
  "transform_with getitem self transformation =
     (case content getitem (tr_selection transformation) of
        Inl e \<Rightarrow> (Inl e, self)
      | Inr content0 \<Rightarrow>
          if content0 \<noteq> original_content transformation then (Inl AssertionError, self)
          else
            (case validate transformation self of
               Some e \<Rightarrow> (Inl e, self)
             | None \<Rightarrow>
                 (case map_result
                         (\<lambda>run. case getitem (snd run) of
                                   Inl e \<Rightarrow> Inl e
                                 | Inr string \<Rightarrow> Inr (fst run, string))
                         (partition (tr_selection transformation) (length self)) of
                    Inl e \<Rightarrow> (Inl e, self)
                  | Inr partition_content \<Rightarrow>
                      (case replace_runs partition_content (replacements transformation)
                              \<lparr>st_self = self, st_count = 0, st_result = []\<rparr> of
                         (Some e, st) \<Rightarrow> (Inl e, st_self st)
                       | (None, st) \<Rightarrow> (Inr (concat (st_result st)), st_self st)))))"

definition StringText_transform :: "string \<Rightarrow> transformation \<Rightarrow> (error + string) \<times> string" where
  "StringText_transform self transformation =
     transform_with (\<lambda>iv. Inr (StringText_getitem self iv)) self transformation"

text \<open>
  A \<^verbatim>\<open>PartialText\<close> instance, given by its string value and its attributes
  \<^verbatim>\<open>origin\<close>, \<^verbatim>\<open>beg\<close> and \<^verbatim>\<open>end\<close>.
\<close>

record partial_text =
  pt_str :: string
  pt_origin :: string
  pt_beg :: int
  pt_end :: int

text \<open>
  The constructor call \<^verbatim>\<open>PartialText(text, beg, end)\<close>. The class has no \<^verbatim>\<open>__new__\<close> of
  its own, so the three arguments reach \<^verbatim>\<open>StringText.__new__(cls, content)\<close> (lines 25
  to 26), which takes one: the call raises before \<^verbatim>\<open>__init__\<close> (lines 72 to 76) runs.
\<close>

definition PartialText :: "string \<Rightarrow> int \<Rightarrow> int \<Rightarrow> error + partial_text" where
  "PartialText text0 beg0 end0 = Inl TypeError"

text \<open>\<^verbatim>\<open>PartialText.__contains__\<close> (lines 78 to 83), on a position and on an interval.\<close>

definition contains_int :: "partial_text \<Rightarrow> int \<Rightarrow> bool" where
  "contains_int self item = (pt_beg self \<le> item \<and> item \<le> pt_end self)"

definition contains_interval :: "partial_text \<Rightarrow> Interval \<Rightarrow> bool" where
  "contains_interval self item =
     (pt_beg self \<le> fst item \<and> fst item \<le> snd item \<and> snd item \<le> pt_end self)"

text \<open>\<^verbatim>\<open>PartialText.__getitem__\<close> (lines 85 to 98), on a position and on an interval.\<close>

definition PartialText_getitem_int :: "partial_text \<Rightarrow> int \<Rightarrow> error + char" where
  "PartialText_getitem_int self item =
     (if \<not> contains_int self item then Inl IndexError
      else py_index (pt_str self) (item - pt_beg self))"

definition PartialText_getitem :: "partial_text \<Rightarrow> Interval \<Rightarrow> bool \<Rightarrow> error + string" where
  "PartialText_getitem self item failfast =
     (if failfast \<and> \<not> contains_interval self item then Inl IndexError
      else
        (case Interval (max 0 (fst item - pt_beg self)) (max 0 (snd item - pt_beg self)) of
           Inl e \<Rightarrow> Inl e
         | Inr iv \<Rightarrow> Inr (StringText_getitem (pt_str self) iv)))"

text \<open>
  \<^verbatim>\<open>PartialText.transform\<close> (lines 103 to 114): the outcome and the string value of
  \<^verbatim>\<open>self\<close> when the call ends. The call of \<^verbatim>\<open>StringText.transform\<close> is a statement,
  not a \<^verbatim>\<open>return\<close>: when it returns, the method returns Python's \<^verbatim>\<open>None\<close>, here
  \<open>Inr None\<close>.
\<close>

definition PartialText_transform ::
  "partial_text \<Rightarrow> transformation \<Rightarrow> (error + string option) \<times> string" where
  "PartialText_transform self transformation =
     (if \<not> list_all (contains_interval self) (tr_selection transformation)
      then (Inl IndexError, pt_str self)
      else
        (case transform_with (\<lambda>iv. PartialText_getitem self iv False) (pt_str self)
                transformation of
           (Inl e, str) \<Rightarrow> (Inl e, str)
         | (Inr new_text, str) \<Rightarrow> (Inr None, str)))"


section \<open>A navigation collaborator and the example documents\<close>

text \<open>
  Modelled from the spec: module \<^verbatim>\<open>navigation\<close> is not part of the sources. A wrapped
  line is a display row produced by breaking the text at line breaks and at the column
  width. \<open>wrapped_line_count\<close> is the count \<^verbatim>\<open>text_as_lines\<close> asserts (lines 265 to
  268 of textview.py): the sum over the lines of the text of \<open>ceil(len(line) / width)\<close>.
  \<open>next_beg\<close> is the begin of the next wrapped line after the one that begins at
  \<open>start\<close>, and \<open>start\<close> itself when there is none; \<open>move_down\<close> advances over \<open>n\<close>
  such boundaries and stops at the last line.
\<close>

fun splitlines_from :: "string \<Rightarrow> string \<Rightarrow> string list" where
  "splitlines_from line [] = (if line = [] then [] else [line])"
| "splitlines_from line (c # cs) =
     (if c = CHR 0x0A then line # splitlines_from [] cs
      else splitlines_from (line @ [c]) cs)"

definition wrapped_line_count :: "string \<Rightarrow> int \<Rightarrow> int" where
  "wrapped_line_count text0 width =
     sum_list (map (\<lambda>line. - ((- int (length line)) div width)) (splitlines_from [] text0))"

definition next_beg :: "string \<Rightarrow> int \<Rightarrow> int \<Rightarrow> int" where
  "next_beg text0 width start =
     (let rest = drop (nat start) text0;
          line = takeWhile (\<lambda>c. c \<noteq> CHR 0x0A) rest
      in if int (length line) > width then start + width
         else if length line < length rest then start + int (length line) + 1
         else start)"

fun move_down :: "string \<Rightarrow> int \<Rightarrow> int \<Rightarrow> nat \<Rightarrow> int" where
  "move_down text0 width start 0 = start"
| "move_down text0 width start (Suc n) =
     (let nxt = next_beg text0 width start
      in if nxt = start then start else move_down text0 width nxt n)"

definition wrap_nav :: navigation where
  "wrap_nav =
     \<lparr>count_wrapped_lines = wrapped_line_count,
      move_n_wrapped_lines_down = (\<lambda>text0 width start n. move_down text0 width start (nat n)),
      next_beg_of_wrapped_line = next_beg\<rparr>"

text \<open>
  The document of the worked example: \<open>abcdef\<close> with \<open>bc\<close> shown as \<open>X\<close>, \<open>bc\<close>
  selected, a tag on position 1.
\<close>

definition example_doc :: document where
  "example_doc =
     \<lparr>doc_text = ''abcdef'', doc_selection = [(1, 3)],
      doc_highlighting = [1 \<mapsto> ''kw''],
      local_substitutions = (\<lambda>_ _. []),
      global_substitutions = [((1, 3), ''X'')]\<rparr>"

text \<open>\<open>ab\<close> with \<open>XY\<close> inserted in front and \<open>b\<close> shown as \<open>W\<close>.\<close>

definition insertion_doc :: document where
  "insertion_doc =
     \<lparr>doc_text = ''ab'', doc_selection = [], doc_highlighting = Map.empty,
      local_substitutions = (\<lambda>_ _. []),
      global_substitutions = [((0, 0), ''XY''), ((1, 2), ''W'')]\<rparr>"

text \<open>The one character \<open>a\<close>, selected, shown as \<open>expansion\<close>.\<close>

definition expansion_doc :: "string \<Rightarrow> document" where
  "expansion_doc expansion =
     \<lparr>doc_text = ''a'', doc_selection = [(0, 1)], doc_highlighting = Map.empty,
      local_substitutions = (\<lambda>_ _. []),
      global_substitutions = [((0, 1), expansion)]\<rparr>"

text \<open>The transformation that replaces \<open>bc\<close> by \<open>X\<close>.\<close>

definition example_transformation :: transformation where
  "example_transformation =
     \<lparr>tr_selection = [(1, 3)], original_content = [''bc''], replacements = [''X''],
      validate = (\<lambda>_. None)\<rparr>"

text \<open>
  Two windowed texts, given by their attributes: \<open>abcdef\<close> as a whole, and the window
  \<open>[2,6)\<close> of \<open>abcdefgh\<close>.
\<close>

definition whole_window :: partial_text where
  "whole_window = \<lparr>pt_str = ''abcdef'', pt_origin = ''abcdef'', pt_beg = 0, pt_end = 6\<rparr>"

definition example_window :: partial_text where
  "example_window = \<lparr>pt_str = ''cdef'', pt_origin = ''abcdefgh'', pt_beg = 2, pt_end = 6\<rparr>"


text \<open>
  Substitutions in ascending order, none overlapping the next, all inside \<open>[lo, hi]\<close>:
  the shape of the merged list for which the single pass keeps its two mappings
  aligned with the sampled range.
\<close>

fun substitutions_within :: "int \<Rightarrow> int \<Rightarrow> substitution list \<Rightarrow> bool" where
  "substitutions_within lo hi [] = True"
| "substitutions_within lo hi (subst # rest) =
     (lo \<le> fst (fst subst) \<and> fst (fst subst) \<le> snd (fst subst) \<and> snd (fst subst) \<le> hi
      \<and> substitutions_within (snd (fst subst)) hi rest)"


section \<open>Shared facts about the view construction\<close>

lemma py_prefix: "0 \<le> k \<Longrightarrow> py_slice xs 0 k = take (nat k) xs"
  by (auto simp: py_slice_def py_bound_def Let_def min_def)

text \<open>The sample loop hands back the single-pass result of its final sample length.\<close>

lemma sample_loop_result:
  assumes "sample_loop nav doc width height obeg s cur = Some r"
    and "compute_text_from_orig_interval doc obeg s = Some cur"
  shows "compute_text_from_orig_interval doc obeg (fst r) = Some (snd r)"
proof -
  have "compute_text_from_orig_interval doc obeg s = Some cur \<longrightarrow>
        compute_text_from_orig_interval doc obeg (fst r) = Some (snd r)"
    by (rule sample_loop.raw_induct
          [where P = "\<lambda>nav doc width height obeg s cur r.
             compute_text_from_orig_interval doc obeg s = Some cur \<longrightarrow>
             compute_text_from_orig_interval doc obeg (fst r) = Some (snd r)", OF _ assms(1)])
       (auto split: if_splits option.splits)
  with assms(2) show ?thesis by simp
qed

text \<open>What the snap keeps of a single-pass result when every assert passes.\<close>

lemma snap_result:
  assumes "snap_to_required_length nav width height (s, vtext, o2v_s, v2o_s) = Inr (t, o2v, v2o)"
  shows "t = take (length t) vtext \<and> o2v = take (length t + 1) (o2v_s @ [int (length vtext)])
         \<and> v2o = v2o_s @ [s] \<and> length o2v = length t + 1
         \<and> int (length t) > int (length vtext) div 2
         \<and> int (length t) = required_length nav width height vtext"
proof -
  define req where "req = required_length nav width height vtext"
  from assms have a: "req > int (length vtext) div 2"
    and b: "int (length (py_slice vtext 0 req)) = req"
    and c: "int (length (py_slice (o2v_s @ [int (length vtext)]) 0 (req + 1))) = req + 1"
    and d: "t = py_slice vtext 0 req" "o2v = py_slice (o2v_s @ [int (length vtext)]) 0 (req + 1)"
       "v2o = v2o_s @ [s]"
    unfolding snap_to_required_length_def req_def
    by (auto simp: Let_def split: if_splits)
  from a have pos: "0 \<le> req" by linarith
  have lt: "int (length t) = req" using b d(1) by simp
  have t: "t = take (nat req) vtext" using d(1) py_prefix[OF pos] by simp
  have o: "o2v = take (nat req + 1) (o2v_s @ [int (length vtext)])"
    using d(2) py_prefix[of "req + 1" "o2v_s @ [int (length vtext)]"] pos
    by (simp add: nat_add_distrib)
  have lo: "int (length o2v) = req + 1" using c d(2) by simp
  have n: "nat req = length t" using lt by linarith
  have "length o2v = length t + 1" using lo lt by linarith
  moreover have "t = take (length t) vtext" using t n by simp
  moreover have "o2v = take (length t + 1) (o2v_s @ [int (length vtext)])" using o n by simp
  moreover have "int (length vtext) div 2 < int (length t)" using a lt by simp
  ultimately show ?thesis using d(3) lt req_def by blast
qed

text \<open>Both mappings of a single-pass result end with their sentinel.\<close>

lemma orig_interval_sentinel:
  assumes "compute_text_from_orig_interval doc obeg n = Some (vtext, o2v, v2o)"
  shows "\<exists>xs ys. o2v = xs @ [int (length vtext)] \<and> v2o = ys @ [n]"
  using assms unfolding compute_text_from_orig_interval_def
  by (auto simp: Let_def split: option.splits)

text \<open>
  A screen-mode result is the empty view of an exhausted document, or the snap of the
  single-pass result over the final sample.
\<close>

lemma view_interval_cases:
  assumes "compute_text_from_view_interval nav doc width height offset = Some (Inr res)"
  shows "(int (length (doc_text doc)) = offset \<and> res = ('''', [0], [0]))
       \<or> (\<exists>s cur. compute_text_from_orig_interval doc offset s = Some cur
             \<and> snap_to_required_length nav width height (s, cur) = Inr res)"
proof (cases "int (length (doc_text doc)) - offset = 0")
  case True
  with assms show ?thesis by (simp add: compute_text_from_view_interval_def)
next
  case False
  with assms obtain cur r where c: "compute_text_from_orig_interval doc offset 1 = Some cur"
    and l: "sample_loop nav doc width height offset 1 cur = Some r"
    and s: "snap_to_required_length nav width height r = Inr res"
    by (auto simp: compute_text_from_view_interval_def Let_def
             split: if_splits option.splits sum.splits)
  from sample_loop_result[OF l c] s show ?thesis
    by (cases r) auto
qed

text \<open>
  Outside the empty view, the reverse mapping of a screen-mode result ends with the
  sample length twice: once from the single pass, once from the snap.
\<close>

lemma view_interval_double_sentinel:
  assumes "compute_text_from_view_interval nav doc width height offset = Some (Inr (t, o2v, v2o))"
    and "int (length (doc_text doc)) \<noteq> offset"
  shows "\<exists>ys s. v2o = ys @ [s, s]"
proof -
  from view_interval_cases[OF assms(1)] assms(2)
  obtain s vtext o2v_s v2o_s where
    c: "compute_text_from_orig_interval doc offset s = Some (vtext, o2v_s, v2o_s)"
    and sn: "snap_to_required_length nav width height (s, vtext, o2v_s, v2o_s) = Inr (t, o2v, v2o)"
    by (metis prod_cases3)
  from orig_interval_sentinel[OF c] obtain ys where "v2o_s = ys @ [s]" by blast
  with snap_result[OF sn] show ?thesis by auto
qed


section \<open>The worked example\<close>

text \<open>
  With the navigation collaborator \<open>wrap_nav\<close>, a screen of width 10 and height 1 at
  offset 0 stops sampling at the first character.
\<close>

lemma example_screen_view:
  "compute_text_from_view_interval wrap_nav example_doc 10 1 0 = Some (Inr (''a'', [0, 1], [0, 1, 1]))"
  by code_simp

text \<open>
  Claim C1, as stated: for the text \<open>abcdef\<close> with the global substitution of \<open>[1,3)\<close>
  by \<open>X\<close>, the screen-mode view of width 10 and height 1 at offset 0 has the text
  \<open>aXdef\<close>, the forward mapping \<open>[0,1,1,2,3,4]\<close> with sentinel 5 and the reverse mapping
  \<open>[0,1,3,4,5]\<close> with sentinel 6. No navigation collaborator makes the screen-mode
  computation return these three values: its reverse mapping always ends with the sample
  length twice.
\<close>

theorem C1_screen_mode_counterexample:
  "\<not> (\<exists>nav. compute_text_from_view_interval nav example_doc 10 1 0
              = Some (Inr (''aXdef'', [0, 1, 1, 2, 3, 4, 5], [0, 1, 3, 4, 5, 6])))"
proof
  assume "\<exists>nav. compute_text_from_view_interval nav example_doc 10 1 0
              = Some (Inr (''aXdef'', [0, 1, 1, 2, 3, 4, 5], [0, 1, 3, 4, 5, 6]))"
  then obtain nav where
    "compute_text_from_view_interval nav example_doc 10 1 0
       = Some (Inr (''aXdef'', [0, 1, 1, 2, 3, 4, 5], [0, 1, 3, 4, 5, 6]))" ..
  moreover have "int (length (doc_text example_doc)) \<noteq> 0"
    by (simp add: example_doc_def)
  ultimately obtain ys s where e: "[0, 1, 3, 4, 5, 6] = ys @ [s, s :: int]"
    using view_interval_double_sentinel by blast
  from e have "last [0, 1, 3, 4, 5, 6 :: int] = last (ys @ [s, s])" by (rule arg_cong)
  then have s6: "s = 6" by simp
  from e have "butlast [0, 1, 3, 4, 5, 6 :: int] = butlast (ys @ [s, s])" by (rule arg_cong)
  then have "[0, 1, 3, 4, 5 :: int] = ys @ [s]" by (simp add: butlast_append)
  then have "last [0, 1, 3, 4, 5 :: int] = last (ys @ [s])" by (rule arg_cong)
  then have "s = 5" by simp
  with s6 show False by simp
qed

text \<open>
  Claim C1, amended: for the text \<open>abcdef\<close> with the global substitution of \<open>[1,3)\<close> by
  \<open>X\<close> and no local substitutions, the single-pass computation over the explicit
  interval \<open>[0,6)\<close> yields the view text \<open>aXdef\<close>, the forward mapping
  \<open>[0,1,1,2,3,4]\<close> with sentinel 5 and the reverse mapping \<open>[0,1,3,4,5]\<close> with
  sentinel 6.
\<close>

theorem C1_explicit_interval_example:
  "compute_text_from_orig_interval example_doc 0 6
     = Some (''aXdef'', [0, 1, 1, 2, 3, 4] @ [5], [0, 1, 3, 4, 5] @ [6])"
  by code_simp


section \<open>Windowed sampling against the single pass\<close>








section \<open>Termination of the merge scan\<close>

text \<open>
  A state from which the loop never returns: a substitution is still ahead, the sample
  is not exhausted, and the view position has reached the sample length. The gap branch
  then copies \<open>min(sbeg - opos, o_sample_length - vpos) \<le> 0\<close> characters for ever.
\<close>

lemma merge_scan_stuck:
  assumes "subst_index s < length substs"
    and "opos s < fst (fst (substs ! subst_index s))"
    and "opos s < obeg + n"
    and "n \<le> vpos s"
  shows "merge_scan otext obeg n substs s = None"
proof (rule ccontr)
  assume "merge_scan otext obeg n substs s \<noteq> None"
  then obtain r where r: "merge_scan otext obeg n substs s = Some r" by auto
  have "\<not> (subst_index s < length substs \<and> opos s < fst (fst (substs ! subst_index s))
           \<and> opos s < obeg + n \<and> n \<le> vpos s)"
  proof (rule merge_scan.raw_induct
      [where P = "\<lambda>otext obeg n substs s r.
         \<not> (subst_index s < length substs \<and> opos s < fst (fst (substs ! subst_index s))
            \<and> opos s < obeg + n \<and> n \<le> vpos s)", OF _ r])
    fix f otext obeg n substs s r
    assume ih: "\<And>otext obeg n substs s r. f otext obeg n substs s = Some r \<Longrightarrow>
        \<not> (subst_index s < length substs \<and> opos s < fst (fst (substs ! subst_index s))
            \<and> opos s < obeg + n \<and> n \<le> vpos s)"
      and step: "(if opos s < obeg + n
      then (if subst_index s \<ge> length substs
            then Some (copy_rest otext obeg n s)
            else (if fst (fst (substs ! subst_index s)) > opos s
                  then f otext obeg n substs
                         (copy_gap otext n (fst (fst (substs ! subst_index s))) s)
                  else f otext obeg n substs
                         (conceal_step (fst (substs ! subst_index s))
                            (snd (substs ! subst_index s)) s)))
      else Some s) = Some r"
    show "\<not> (subst_index s < length substs \<and> opos s < fst (fst (substs ! subst_index s))
            \<and> opos s < obeg + n \<and> n \<le> vpos s)"
    proof
      assume bad: "subst_index s < length substs \<and> opos s < fst (fst (substs ! subst_index s))
            \<and> opos s < obeg + n \<and> n \<le> vpos s"
      let ?s' = "copy_gap otext n (fst (fst (substs ! subst_index s))) s"
      from bad step have "f otext obeg n substs ?s' = Some r" by simp
      from ih[OF this] bad show False
        by (simp add: copy_gap_def copy_text_def min_def)
    qed
  qed
  with assms show False by simp
qed

lemma insertion_doc_first_probe:
  "compute_text_from_orig_interval insertion_doc 0 1 = Some (''XYa'', [2, 3], [0, 0, 0, 1])"
  by code_simp

lemma insertion_doc_substitutions:
  "substitutions_for insertion_doc 0 2 = [((0, 0), ''XY''), ((1, 2), ''W'')]"
  by code_simp

lemma insertion_doc_text: "doc_text insertion_doc = ''ab''"
  by (simp add: insertion_doc_def)

lemma insertion_doc_second_probe:
  "compute_text_from_orig_interval insertion_doc 0 2 = None"
proof -
  let ?substs = "[((0, 0), ''XY''), ((1, 2), ''W'')]"
  let ?s1 = "conceal_step (0, 0) ''XY'' (scan_init 0)"
  have "merge_scan ''ab'' 0 2 ?substs (scan_init 0) = merge_scan ''ab'' 0 2 ?substs ?s1"
    by (subst merge_scan.simps) (simp add: scan_init_def)
  also have "\<dots> = None"
    by (rule merge_scan_stuck) (simp_all add: conceal_step_def scan_init_def py_repeat_def)
  finally show ?thesis
    by (simp add: compute_text_from_orig_interval_def insertion_doc_substitutions
          insertion_doc_text)
qed

text \<open>
  Claim C3 states that screen-mode view construction terminates for every document,
  finite substitution list and valid viewport. On the text \<open>ab\<close> with \<open>XY\<close> inserted
  at 0 and \<open>b\<close> shown as \<open>W\<close>, width 10, height 2, offset 0, the construction does
  not return, provided the first probe \<open>XYa\<close> counts fewer than two wrapped lines: the
  second probe, of sample length 2, never leaves the merge scan.
\<close>

theorem C3_screen_view_diverges:
  assumes "count_wrapped_lines nav ''XYa'' 10 < 2"
  shows "for_screen nav insertion_doc 10 2 0 = None"
proof -
  have "sample_loop nav insertion_doc 10 2 0 1 (''XYa'', [2, 3], [0, 0, 0, 1]) = None"
    using assms
    by (subst sample_loop.simps) (simp add: insertion_doc_second_probe insertion_doc_text)
  then have "compute_text_from_view_interval nav insertion_doc 10 2 0 = None"
    by (simp add: compute_text_from_view_interval_def insertion_doc_first_probe py_index_def
          insertion_doc_text)
  then show ?thesis by (simp add: for_screen_def insertion_doc_text)
qed

text \<open>The hypothesis of the previous theorem holds for the collaborator \<open>wrap_nav\<close>.\<close>

theorem C3_screen_view_diverges_witness:
  "count_wrapped_lines wrap_nav ''XYa'' 10 < 2 \<and> for_screen wrap_nav insertion_doc 10 2 0 = None"
proof -
  have h: "count_wrapped_lines wrap_nav ''XYa'' 10 < 2" by code_simp
  from C3_screen_view_diverges[OF h] h show ?thesis by simp
qed


section \<open>The asserts of the view construction\<close>

text \<open>
  A document of one character never doubles its sample: the screen-mode result is the
  snap of the first probe, whatever the navigation collaborator counts.
\<close>

lemma expansion_doc_text: "doc_text (expansion_doc x) = ''a''"
  by (simp add: expansion_doc_def)

lemma expansion_doc_probe:
  "compute_text_from_orig_interval (expansion_doc x) 0 1
     = Some (x, [0, int (length x)], py_repeat (int (length x)) 0 @ [1])"
proof -
  have s: "substitutions_for (expansion_doc x) 0 1 = [((0, 1), x)]"
    by (simp add: substitutions_for_def expansion_doc_def bisect_left_def py_slice_def
          py_bound_def less_prod_def less_eq_prod_def)
  have "merge_scan ''a'' 0 1 [((0, 1), x)] (scan_init 0)
        = Some (conceal_step (0, 1) x (scan_init 0))"
    by (subst merge_scan.simps, simp add: scan_init_def,
        subst merge_scan.simps, simp add: conceal_step_def scan_init_def Let_def)
  then show ?thesis
    by (simp add: compute_text_from_orig_interval_def s expansion_doc_text)
       (simp add: conceal_step_def scan_init_def py_repeat_def Let_def)
qed

lemma expansion_doc_sample:
  "sample_loop nav (expansion_doc x) width height 0 1 cur = Some (1, cur)"
  by (subst sample_loop.simps) (simp add: expansion_doc_text)

lemma expansion_doc_view_interval:
  "compute_text_from_view_interval nav (expansion_doc x) width height 0
     = Some (snap_to_required_length nav width height
               (1, x, [0, int (length x)], py_repeat (int (length x)) 0 @ [1]))"
  by (simp add: compute_text_from_view_interval_def expansion_doc_text expansion_doc_probe
        expansion_doc_sample py_index_def)

text \<open>
  Claim C4 states that the self-check \<^verbatim>\<open>assert required_length > len(vtext) // 2\<close> never
  fails. On the text \<open>a\<close> shown as \<open>XXXX\<close>, width 2, height 1, offset 0, the only
  probe has the view text \<open>XXXX\<close>; when the first wrapped line begins at 0 and the
  next one at 2, the required length is 2, which does not exceed \<open>4 // 2\<close>, and the
  construction fails with the assertion error.
\<close>

theorem C4_self_check_fails:
  assumes "move_n_wrapped_lines_down nav ''XXXX'' 2 0 0 = 0"
    and "next_beg_of_wrapped_line nav ''XXXX'' 2 0 = 2"
  shows "compute_text_from_view_interval nav (expansion_doc ''XXXX'') 2 1 0
           = Some (Inl AssertionError)
         \<and> for_screen nav (expansion_doc ''XXXX'') 2 1 0 = Some (Inl AssertionError)"
proof -
  have "snap_to_required_length nav 2 1 (1, ''XXXX'', [0, 4], py_repeat 4 0 @ [1])
          = Inl AssertionError"
    using assms by (simp add: snap_to_required_length_def required_length_def)
  then have "compute_text_from_view_interval nav (expansion_doc ''XXXX'') 2 1 0
           = Some (Inl AssertionError)"
    by (simp add: expansion_doc_view_interval)
  then show ?thesis by (simp add: for_screen_def expansion_doc_text)
qed

text \<open>The two hypotheses of the previous theorem hold for the collaborator \<open>wrap_nav\<close>.\<close>

theorem C4_self_check_fails_witness:
  "move_n_wrapped_lines_down wrap_nav ''XXXX'' 2 0 0 = 0
   \<and> next_beg_of_wrapped_line wrap_nav ''XXXX'' 2 0 = 2
   \<and> compute_text_from_view_interval wrap_nav (expansion_doc ''XXXX'') 2 1 0
           = Some (Inl AssertionError)
   \<and> for_screen wrap_nav (expansion_doc ''XXXX'') 2 1 0 = Some (Inl AssertionError)"
proof -
  have a: "move_n_wrapped_lines_down wrap_nav ''XXXX'' 2 0 0 = 0" by code_simp
  have b: "next_beg_of_wrapped_line wrap_nav ''XXXX'' 2 0 = 2" by code_simp
  from C4_self_check_fails[OF a b] a b show ?thesis by simp
qed

text \<open>
  Claim C8 states that every interval produced by the selection projection satisfies
  \<open>0 \<le> vbeg \<le> vend \<le> len(text)\<close>. On the text \<open>a\<close>, selected, shown as \<open>XYZ\<close>,
  width 2, height 1, offset 0, the view text is snapped to \<open>XY\<close> when the first wrapped
  line begins at 0 and the next one at 2; the projection then produces the interval
  \<open>(0, 3)\<close>, which ends beyond the view text, the postcondition fails, and so does the
  construction of the view.
\<close>

theorem C8_postcondition_fails:
  assumes "move_n_wrapped_lines_down nav ''XYZ'' 2 0 0 = 0"
    and "next_beg_of_wrapped_line nav ''XYZ'' 2 0 = 2"
  shows "compute_text_from_view_interval nav (expansion_doc ''XYZ'') 2 1 0
           = Some (Inr (''XY'', [0, 3, 3], [0, 0, 0, 1, 1]))
         \<and> compute_selection_body (expansion_doc ''XYZ'') 0 ''XY'' [0, 3, 3] [0, 0, 0, 1, 1]
           = Inr [(0, 3)]
         \<and> \<not> compute_selectionview_post [(0, 3)] ''XY''
         \<and> for_screen nav (expansion_doc ''XYZ'') 2 1 0 = Some (Inl AssertionError)"
proof -
  have "snap_to_required_length nav 2 1 (1, ''XYZ'', [0, 3], py_repeat 3 0 @ [1])
          = Inr (''XY'', [0, 3, 3], [0, 0, 0, 1, 1])"
    using assms
    by (simp add: snap_to_required_length_def required_length_def py_slice_def py_bound_def py_repeat_def
          numeral_3_eq_3)
  then have v: "compute_text_from_view_interval nav (expansion_doc ''XYZ'') 2 1 0
           = Some (Inr (''XY'', [0, 3, 3], [0, 0, 0, 1, 1]))"
    by (simp add: expansion_doc_view_interval)
  have b: "compute_selection_body (expansion_doc ''XYZ'') 0 ''XY'' [0, 3, 3] [0, 0, 0, 1, 1]
           = Inr [(0, 3)]"
    by code_simp
  have p: "\<not> compute_selectionview_post [(0, 3)] ''XY''"
    by (simp add: compute_selectionview_post_def)
  have "for_screen nav (expansion_doc ''XYZ'') 2 1 0 = Some (Inl AssertionError)"
    by (simp add: for_screen_def expansion_doc_text v finish_view_def compute_selection_def b p)
  with v b p show ?thesis by simp
qed

text \<open>The two hypotheses of the previous theorem hold for the collaborator \<open>wrap_nav\<close>.\<close>

theorem C8_postcondition_fails_witness:
  "move_n_wrapped_lines_down wrap_nav ''XYZ'' 2 0 0 = 0
   \<and> next_beg_of_wrapped_line wrap_nav ''XYZ'' 2 0 = 2
   \<and> for_screen wrap_nav (expansion_doc ''XYZ'') 2 1 0 = Some (Inl AssertionError)"
proof -
  have a: "move_n_wrapped_lines_down wrap_nav ''XYZ'' 2 0 0 = 0" by code_simp
  have b: "next_beg_of_wrapped_line wrap_nav ''XYZ'' 2 0 = 2" by code_simp
  from C8_postcondition_fails[OF a b] a b show ?thesis by simp
qed


section \<open>Highlighting of a view\<close>

lemma py_index_nat:
  "py_index xs (int i) = (if i < length xs then Inr (xs ! i) else Inl IndexError)"
  by (simp add: py_index_def)


lemma highlight_positions_result:
  "highlight_positions doc v2o is = Inr tags \<Longrightarrow>
   length tags = length is \<and>
   (\<forall>k < length is. is ! k < length v2o \<and>
      tags ! k = (case doc_highlighting doc (v2o ! (is ! k)) of Some tag \<Rightarrow> tag | None \<Rightarrow> ''''))"
proof (induction "is" arbitrary: tags)
  case Nil
  then show ?case by simp
next
  case (Cons i rest)
  from Cons.prems obtain tags' where
    i: "i < length v2o"
    and r: "highlight_positions doc v2o rest = Inr tags'"
    and t: "tags = (case doc_highlighting doc (v2o ! i) of Some tag \<Rightarrow> tag | None \<Rightarrow> '''') # tags'"
    by (auto simp: py_index_nat split: if_splits sum.splits)
  from Cons.IH[OF r] i t show ?case
    by (auto simp: nth_Cons split: nat.splits)
qed

lemma compute_highlighting_result:
  assumes "compute_highlighting doc text0 v2o = Inr tags"
  shows "length tags = length text0 \<and>
   (\<forall>i < length text0. i < length v2o \<and>
      tags ! i = (case doc_highlighting doc (v2o ! i) of Some tag \<Rightarrow> tag | None \<Rightarrow> ''''))"
  using highlight_positions_result[OF assms[unfolded compute_highlighting_def]] by simp

lemma finish_view_highlighting:
  assumes "finish_view doc offset r = Inr v"
  shows "compute_highlighting doc (view_text v) (viewpos_to_origpos v) = Inr (view_highlighting v)"
  using assms by (auto simp: finish_view_def split: prod.splits sum.splits)

text \<open>
  Claim C10: for every constructed view, by either constructor, the highlighting
  projection has exactly the length of the view text, and for every view position \<open>i\<close>
  of the view text its tag is the tag the document's highlighting table has at the
  reverse-mapped original position \<open>viewpos_to_origpos[i]\<close>, and the empty string when
  the table has no entry there.
\<close>

theorem C10_highlighting_projection:
  assumes "for_screen nav doc width height offset = Some (Inr v)
           \<or> for_entire_text doc width = Some (Inr v)"
  shows "length (view_highlighting v) = length (view_text v) \<and>
         (\<forall>i < length (view_text v).
            i < length (viewpos_to_origpos v) \<and>
            view_highlighting v ! i =
              (case doc_highlighting doc (viewpos_to_origpos v ! i) of
                 Some tag \<Rightarrow> tag | None \<Rightarrow> ''''))"
proof -
  from assms obtain offset' r where "finish_view doc offset' r = Inr v"
    by (auto simp: for_screen_def for_entire_text_def split: if_splits option.splits sum.splits)
  from compute_highlighting_result[OF finish_view_highlighting[OF this]] show ?thesis .
qed

text \<open>
  Claim C10 on the example document, width 2, height 2, offset 0: the tag of original
  position 1 appears at view position 1.
\<close>

theorem C10_highlighting_witness:
  "for_screen wrap_nav example_doc 2 2 0
     = Some (Inr \<lparr>view_text = ''aXd'', view_selection = [(1, 2)],
                  view_highlighting = ['''', ''kw'', ''''],
                  viewpos_to_origpos = [0, 1, 3, 4, 4], origpos_to_viewpos = [0, 1, 1, 2]\<rparr>)
   \<and> length ['''', ''kw'', ''''] = length ''aXd''
   \<and> (1 :: nat) < length ''aXd''
   \<and> ['''', ''kw'', ''''] ! 1 = the (doc_highlighting example_doc ([0, 1, 3, 4, 4] ! 1))"
proof -
  let ?v = "\<lparr>view_text = ''aXd'', view_selection = [(1, 2)],
                  view_highlighting = ['''', ''kw'', ''''],
                  viewpos_to_origpos = [0, 1, 3, 4, 4], origpos_to_viewpos = [0, 1, 1, 2]\<rparr>"
  have h: "for_screen wrap_nav example_doc 2 2 0 = Some (Inr ?v)"
    by code_simp
  have d: "doc_highlighting example_doc 1 = Some ''kw''"
    by (simp add: example_doc_def)
  from C10_highlighting_projection[OF disjI1, OF h]
  have len: "length (view_highlighting ?v) = length (view_text ?v)"
    and tags: "\<forall>i < length (view_text ?v). view_highlighting ?v ! i =
              (case doc_highlighting example_doc (viewpos_to_origpos ?v ! i) of
                 Some tag \<Rightarrow> tag | None \<Rightarrow> [])"
    by blast+
  from tags[rule_format, of 1] d
  have "view_highlighting ?v ! 1 = ''kw''" by simp
  with len
  have ?thesis using h d by simp
  then show ?thesis .
qed


section \<open>Transformations of a text\<close>







text \<open>Whatever the window and the transformation, the windowed transform returns no text.\<close>

lemma PartialText_transform_no_text:
  "fst (PartialText_transform self tr) \<noteq> Inr (Some t)"
  by (auto simp: PartialText_transform_def split: sum.splits prod.splits)

text \<open>
  Claim C5 states that the transform of a windowed text returns a new text, the in-order
  concatenation of the unselected runs and the replacements, when the selection lies in
  the window and the validation succeeds. On the windowed text with string value
  \<open>abcdef\<close> and bounds \<open>[0,6)\<close> and the transformation that replaces \<open>bc\<close> by \<open>X\<close>,
  the windowed transform returns \<^verbatim>\<open>None\<close>, where the transform of the full text returns
  \<open>aXdef\<close>. The window is given by its attributes: the constructor call for it raises.
\<close>

theorem C5_partial_transform_returns_none:
  "PartialText_transform whole_window example_transformation = (Inr None, ''abcdef'')
   \<and> StringText_transform ''abcdef'' example_transformation = (Inr ''aXdef'', ''abcdef'')
   \<and> PartialText ''abcdef'' 0 6 = Inl TypeError"
  by code_simp


section \<open>Indexing a windowed text\<close>

text \<open>Slices with bounds that are not negative, and a slice of a slice.\<close>

lemma py_slice_nat: "py_slice xs (int i) (int j) = drop i (take j xs)"
proof -
  have "py_slice xs (int i) (int j)
      = take (min j (length xs) - min i (length xs)) (drop (min i (length xs)) xs)"
    by (simp add: py_slice_def py_bound_def Let_def min_def)
  also have "\<dots> = take (j - i) (drop i xs)"
    by (cases "i \<le> length xs"; cases "j \<le> length xs") (simp_all add: min_def)
  also have "\<dots> = drop i (take j xs)"
    by (simp add: drop_take)
  finally show ?thesis .
qed

lemma window_slice_nat:
  fixes B E b e :: nat
  assumes "B \<le> E" "b \<le> e"
  shows "py_slice (py_slice xs (int B) (int E)) (int (b - B)) (int (e - B))
         = py_slice xs (int (max b B)) (int (min e E))"
proof -
  have "py_slice (py_slice xs (int B) (int E)) (int (b - B)) (int (e - B))
      = drop (b - B) (take (e - B) (drop B (take E xs)))"
    by (simp only: py_slice_nat)
  also have "take (e - B) (drop B (take E xs)) = drop B (take (e - B + B) (take E xs))"
    by (simp only: take_drop)
  also have "drop (b - B) (drop B (take (e - B + B) (take E xs)))
      = drop (b - B + B) (take (min (e - B + B) E) xs)"
    by (simp only: drop_drop take_take)
  also have "\<dots> = drop (max b B) (take (min e E) xs)"
  proof (cases "B \<le> e")
    case True
    then have "e - B + B = e" by simp
    moreover have "b - B + B = max b B" by (simp add: max_def)
    ultimately show ?thesis by simp
  next
    case False
    with assms have "b - B + B = B" "max b B = B" "min (e - B + B) E = B" "min e E < B"
      by (simp_all add: max_def min_def)
    then show ?thesis by simp
  qed
  also have "\<dots> = py_slice xs (int (max b B)) (int (min e E))"
    by (simp only: py_slice_nat)
  finally show ?thesis .
qed

lemma window_slice:
  assumes "0 \<le> beg0" "beg0 \<le> end0" "0 \<le> b" "b \<le> e"
  shows "py_slice (py_slice text0 beg0 end0) (max 0 (b - beg0)) (max 0 (e - beg0))
         = py_slice text0 (max b beg0) (min e end0)"
proof -
  from assms obtain B E b' e' where
    eq: "beg0 = int B" "end0 = int E" "b = int b'" "e = int e'"
    by (metis nonneg_int_cases order_trans)
  with assms have le: "B \<le> E" "b' \<le> e'" by simp_all
  have "max 0 (int b' - int B) = int (b' - B)" "max 0 (int e' - int B) = int (e' - B)"
    "max (int b') (int B) = int (max b' B)" "min (int e') (int E) = int (min e' E)"
    by linarith+
  with window_slice_nat[OF le, of text0] show ?thesis
    unfolding eq by simp
qed

lemma window_length:
  assumes "0 \<le> pt_beg self" "pt_beg self \<le> pt_end self"
    and "pt_str self = StringText_getitem (pt_origin self) (pt_beg self, pt_end self)"
  shows "int (length (pt_str self)) \<le> pt_end self - pt_beg self"
proof -
  from assms(1,2) obtain B E where eq: "pt_beg self = int B" "pt_end self = int E"
    by (metis nonneg_int_cases order_trans)
  with assms(2) have "B \<le> E" by simp
  have "pt_str self = drop B (take E (pt_origin self))"
    unfolding assms(3) eq by (simp add: StringText_getitem_def py_slice_nat)
  then have "length (pt_str self) \<le> E - B"
    by simp
  with \<open>B \<le> E\<close> show ?thesis unfolding eq by linarith
qed

text \<open>
  Claim C7, as stated: indexing a windowed text by an interval never clamps the begin of
  the interval. On the window \<open>[2,6)\<close> of \<open>abcdefgh\<close> the interval \<open>(0,4)\<close>, which
  begins before the window, yields \<open>cd\<close>, the text of \<open>[2,4)\<close>, and no error.
\<close>

theorem C7_begin_clamped_counterexample:
  "PartialText_getitem example_window (0, 4) False = Inr ''cd''"
  by code_simp

text \<open>
  Claim C7, amended: for a windowed text with bounds \<open>[begin, end)\<close>,
  \<open>0 \<le> begin \<le> end\<close>, whose string value is the text of its origin over these bounds,
  indexing by an absolute position outside the bounds fails with the out-of-range
  error; indexing by an interval \<open>(b, e)\<close>, \<open>0 \<le> b \<le> e\<close>, never fails in the default mode
  and clamps both ends to the window: it yields the text of the origin over
  \<open>[max(b, begin), min(e, end))\<close>; only with \<^verbatim>\<open>failfast\<close> set does an interval that is
  not contained in the window fail with the out-of-range error.
\<close>

theorem C7_windowed_indexing:
  assumes "0 \<le> pt_beg self" "pt_beg self \<le> pt_end self"
    and "pt_str self = StringText_getitem (pt_origin self) (pt_beg self, pt_end self)"
  shows "(item < pt_beg self \<or> pt_end self \<le> item \<longrightarrow>
            PartialText_getitem_int self item = Inl IndexError)
       \<and> (0 \<le> b \<and> b \<le> e \<longrightarrow>
            PartialText_getitem self (b, e) False
              = Inr (StringText_getitem (pt_origin self)
                       (max b (pt_beg self), min e (pt_end self))))
       \<and> (\<not> contains_interval self (b, e) \<longrightarrow>
            PartialText_getitem self (b, e) True = Inl IndexError)"
proof (intro conjI impI)
  assume out: "item < pt_beg self \<or> pt_end self \<le> item"
  show "PartialText_getitem_int self item = Inl IndexError"
  proof (cases "contains_int self item")
    case False
    then show ?thesis by (simp add: PartialText_getitem_int_def)
  next
    case True
    with out have "item = pt_end self" by (auto simp: contains_int_def)
    with window_length[OF assms] assms(1,2) show ?thesis
      by (simp add: PartialText_getitem_int_def py_index_def)
  qed
next
  assume iv: "0 \<le> b \<and> b \<le> e"
  then have "max 0 (b - pt_beg self) \<le> max 0 (e - pt_beg self)" by auto
  then show "PartialText_getitem self (b, e) False
              = Inr (StringText_getitem (pt_origin self)
                       (max b (pt_beg self), min e (pt_end self)))"
    using window_slice[OF assms(1,2), of b e "pt_origin self"] iv
    by (simp add: PartialText_getitem_def Interval_def StringText_getitem_def assms(3))
next
  assume "\<not> contains_interval self (b, e)"
  then show "PartialText_getitem self (b, e) True = Inl IndexError"
    by (simp add: PartialText_getitem_def)
qed

text \<open>The amended claim C7 on the window \<open>[2,6)\<close> of \<open>abcdefgh\<close>.\<close>

theorem C7_windowed_indexing_witness:
  "PartialText_getitem_int example_window 6 = Inl IndexError
   \<and> PartialText_getitem example_window (3, 9) False
       = Inr (StringText_getitem ''abcdefgh'' (max 3 2, min 9 6))
   \<and> PartialText_getitem example_window (3, 9) True = Inl IndexError"
proof -
  have w: "0 \<le> pt_beg example_window" "pt_beg example_window \<le> pt_end example_window"
    "pt_str example_window
       = StringText_getitem (pt_origin example_window)
           (pt_beg example_window, pt_end example_window)"
    by code_simp+
  have c: "\<not> contains_interval example_window (3, 9)"
    by (simp add: contains_interval_def example_window_def)
  have f: "pt_beg example_window = 2" "pt_end example_window = 6"
    "pt_origin example_window = ''abcdefgh''"
    by (simp_all add: example_window_def)
  from C7_windowed_indexing[OF w, where item = 6 and b = 3 and e = 9] c
  show ?thesis unfolding f by simp
qed


section \<open>The mappings of the single pass\<close>

lemma length_py_range: "length (py_range a b) = nat (b - a)"
  by (simp add: py_range_def)

lemma length_py_slice_inside:
  assumes "0 \<le> a" "a \<le> b" "b \<le> int (length xs)"
  shows "length (py_slice xs a b) = nat (b - a)"
proof -
  from assms obtain a' b' where eq: "a = int a'" "b = int b'"
    by (metis nonneg_int_cases order_trans)
  with assms have "a' \<le> b'" "b' \<le> length xs" by simp_all
  then show ?thesis unfolding eq by (simp add: py_slice_nat)
qed

lemma copy_text_fields:
  "opos (copy_text otext k s) = opos s + k"
  "vpos (copy_text otext k s) = vpos s + k"
  "subst_index (copy_text otext k s) = subst_index s"
  "opos_to_vpos (copy_text otext k s) = opos_to_vpos s @ py_range (vpos s) (vpos s + k)"
  "vpos_to_opos (copy_text otext k s) = vpos_to_opos s @ py_range (opos s) (opos s + k)"
  "vtext_builder (copy_text otext k s) = vtext_builder s @ [py_slice otext (opos s) (opos s + k)]"
  by (simp_all add: copy_text_def)

lemma conceal_step_fields:
  "opos (conceal_step iv rep s) = opos s + (snd iv - fst iv)"
  "vpos (conceal_step iv rep s) = vpos s + int (length rep)"
  "subst_index (conceal_step iv rep s) = subst_index s + 1"
  "opos_to_vpos (conceal_step iv rep s) = opos_to_vpos s @ py_repeat (snd iv - fst iv) (vpos s)"
  "vpos_to_opos (conceal_step iv rep s) = vpos_to_opos s @ py_repeat (int (length rep)) (opos s)"
  "vtext_builder (conceal_step iv rep s) = vtext_builder s @ [rep]"
  by (simp_all add: conceal_step_def Let_def)

text \<open>
  The invariant of the merge loop on a well-shaped substitution list inside a range of
  the document: the forward mapping has one entry per original position passed, the
  reverse mapping one entry per character of the view text built. A gap that the bound
  \<open>o_sample_length - vpos\<close> cuts short leads to a state from which the loop does not
  return, so it does not occur in a run that returns.
\<close>

lemma scan_lengths:
  assumes "merge_scan otext obeg n substs s = Some r"
    and "subst_index s \<le> length substs"
    and "substitutions_within (opos s) (obeg + n) (drop (subst_index s) substs)"
    and "0 \<le> obeg" "obeg \<le> opos s" "opos s \<le> obeg + n" "obeg + n \<le> int (length otext)"
    and "length (opos_to_vpos s) = nat (opos s - obeg)"
    and "length (vpos_to_opos s) = length (concat (vtext_builder s))"
  shows "length (opos_to_vpos r) = nat n
       \<and> length (vpos_to_opos r) = length (concat (vtext_builder r))"
  using assms
proof (induction "(length substs - subst_index s) + nat (obeg + n - opos s)"
       arbitrary: s rule: less_induct)
  case less
  note run = less.prems(1) and idx = less.prems(2) and within = less.prems(3)
    and ob = less.prems(4) and lo = less.prems(5) and hi = less.prems(6)
    and len = less.prems(7) and lo2v = less.prems(8) and lv2o = less.prems(9)
  show ?case
  proof (cases "opos s < obeg + n")
    case False
    with run have "r = s" by (subst (asm) merge_scan.simps) simp
    moreover from False hi have "opos s = obeg + n" by simp
    ultimately show ?thesis using lo2v lv2o by simp
  next
    case more: True
    show ?thesis
    proof (cases "length substs \<le> subst_index s")
      case True
      with more run have r: "r = copy_rest otext obeg n s"
        by (subst (asm) merge_scan.simps) simp
      define d where "d = n - (opos s - obeg)"
      have d: "min (n - (opos s - obeg)) (int (length otext) - (opos s - obeg)) = d"
        unfolding d_def using len ob by linarith
      have dpos: "0 < d" unfolding d_def using more by linarith
      have sl: "length (py_slice otext (opos s) (opos s + d)) = nat d"
        using length_py_slice_inside[of "opos s" "opos s + d" otext] lo ob len dpos
        unfolding d_def by simp
      have "length (opos_to_vpos r) = nat n"
        unfolding r copy_rest_def d using lo2v lo dpos
        by (simp add: copy_text_fields length_py_range d_def; linarith?)
      moreover have "length (vpos_to_opos r) = length (concat (vtext_builder r))"
        unfolding r copy_rest_def d using lv2o sl
        by (simp add: copy_text_fields length_py_range)
      ultimately show ?thesis by simp
    next
      case False
      then have i: "subst_index s < length substs" by simp
      define sub where "sub = substs ! subst_index s"
      have dr: "drop (subst_index s) substs = sub # drop (Suc (subst_index s)) substs"
        unfolding sub_def using i by (simp add: Cons_nth_drop_Suc)
      from within have w: "opos s \<le> fst (fst sub)" "fst (fst sub) \<le> snd (fst sub)"
        "snd (fst sub) \<le> obeg + n"
        "substitutions_within (snd (fst sub)) (obeg + n) (drop (Suc (subst_index s)) substs)"
        unfolding dr by simp_all
      show ?thesis
      proof (cases "opos s < fst (fst sub)")
        case gap: True
        let ?s' = "copy_gap otext n (fst (fst sub)) s"
        from more i gap run have run': "merge_scan otext obeg n substs ?s' = Some r"
          by (subst (asm) merge_scan.simps) (simp add: sub_def)
        show ?thesis
        proof (cases "n - vpos s < fst (fst sub) - opos s")
          case True
          then have k: "min (fst (fst sub) - opos s) (n - vpos s) = n - vpos s" by simp
          have "merge_scan otext obeg n substs ?s' = None"
          proof (rule merge_scan_stuck)
            show "subst_index ?s' < length substs"
              using i by (simp add: copy_gap_def copy_text_fields)
            show "opos ?s' < fst (fst (substs ! subst_index ?s'))"
              using True by (simp add: copy_gap_def copy_text_fields k sub_def)
            show "opos ?s' < obeg + n"
              using True w(2,3) by (simp add: copy_gap_def copy_text_fields k)
            show "n \<le> vpos ?s'"
              by (simp add: copy_gap_def copy_text_fields k)
          qed
          with run' show ?thesis by simp
        next
          case False
          then have k: "min (fst (fst sub) - opos s) (n - vpos s) = fst (fst sub) - opos s"
            by simp
          have f: "opos ?s' = fst (fst sub)" "subst_index ?s' = subst_index s"
            by (simp_all add: copy_gap_def copy_text_fields k)
          have sl: "length (py_slice otext (opos s) (fst (fst sub))) = nat (fst (fst sub) - opos s)"
            using length_py_slice_inside[of "opos s" "fst (fst sub)" otext] lo ob len w gap
            by simp
          have "length (opos_to_vpos r) = nat n
              \<and> length (vpos_to_opos r) = length (concat (vtext_builder r))"
          proof (rule less.hyps[OF _ run'])
            show "length substs - subst_index ?s' + nat (obeg + n - opos ?s')
                < length substs - subst_index s + nat (obeg + n - opos s)"
              unfolding f using gap w by linarith
            show "subst_index ?s' \<le> length substs" unfolding f by (rule idx)
            show "substitutions_within (opos ?s') (obeg + n) (drop (subst_index ?s') substs)"
              unfolding f dr using w by simp
            show "0 \<le> obeg" by (rule ob)
            show "obeg \<le> opos ?s'" unfolding f using lo w by linarith
            show "opos ?s' \<le> obeg + n" unfolding f using w by linarith
            show "obeg + n \<le> int (length otext)" by (rule len)
            show "length (opos_to_vpos ?s') = nat (opos ?s' - obeg)"
              unfolding f using lo2v lo gap
              by (simp add: copy_gap_def copy_text_fields k length_py_range; linarith?)
            show "length (vpos_to_opos ?s') = length (concat (vtext_builder ?s'))"
              using lv2o sl
              by (simp add: copy_gap_def copy_text_fields k length_py_range)
          qed
          then show ?thesis .
        qed
      next
        case False
        with w have at: "fst (fst sub) = opos s" by simp
        let ?s' = "conceal_step (fst sub) (snd sub) s"
        from more i False run have run': "merge_scan otext obeg n substs ?s' = Some r"
          by (subst (asm) merge_scan.simps) (simp add: sub_def)
        have f: "opos ?s' = snd (fst sub)" "subst_index ?s' = Suc (subst_index s)"
          by (simp_all add: conceal_step_fields at)
        have "length (opos_to_vpos r) = nat n
            \<and> length (vpos_to_opos r) = length (concat (vtext_builder r))"
        proof (rule less.hyps[OF _ run'])
          show "length substs - subst_index ?s' + nat (obeg + n - opos ?s')
              < length substs - subst_index s + nat (obeg + n - opos s)"
            unfolding f using i w at by linarith
          show "subst_index ?s' \<le> length substs" unfolding f using i by simp
          show "substitutions_within (opos ?s') (obeg + n) (drop (subst_index ?s') substs)"
            unfolding f by (rule w(4))
          show "0 \<le> obeg" by (rule ob)
          show "obeg \<le> opos ?s'" unfolding f using lo w by linarith
          show "opos ?s' \<le> obeg + n" unfolding f by (rule w(3))
          show "obeg + n \<le> int (length otext)" by (rule len)
          show "length (opos_to_vpos ?s') = nat (opos ?s' - obeg)"
            unfolding f using lo2v lo w at
            by (simp add: conceal_step_fields py_repeat_def; linarith?)
          show "length (vpos_to_opos ?s') = length (concat (vtext_builder ?s'))"
            using lv2o by (simp add: conceal_step_fields py_repeat_def)
        qed
        then show ?thesis .
      qed
    qed
  qed
qed

text \<open>
  When, moreover, no replacement is longer than the interval it replaces, the view
  position never overtakes the original position, every gap is copied whole, and the
  loop returns.
\<close>

lemma scan_returns:
  assumes "subst_index s \<le> length substs"
    and "substitutions_within (opos s) (obeg + n) (drop (subst_index s) substs)"
    and "opos s \<le> obeg + n"
    and "vpos s \<le> opos s - obeg"
    and "\<forall>sub \<in> set substs. int (length (snd sub)) \<le> snd (fst sub) - fst (fst sub)"
  shows "\<exists>r. merge_scan otext obeg n substs s = Some r"
  using assms
proof (induction "(length substs - subst_index s) + nat (obeg + n - opos s)"
       arbitrary: s rule: less_induct)
  case less
  note idx = less.prems(1) and within = less.prems(2) and hi = less.prems(3)
    and vp = less.prems(4) and short = less.prems(5)
  show ?case
  proof (cases "opos s < obeg + n")
    case False
    then show ?thesis by (subst merge_scan.simps) simp
  next
    case more: True
    show ?thesis
    proof (cases "length substs \<le> subst_index s")
      case True
      with more show ?thesis by (subst merge_scan.simps) simp
    next
      case False
      then have i: "subst_index s < length substs" by simp
      define sub where "sub = substs ! subst_index s"
      have dr: "drop (subst_index s) substs = sub # drop (Suc (subst_index s)) substs"
        unfolding sub_def using i by (simp add: Cons_nth_drop_Suc)
      from within have w: "opos s \<le> fst (fst sub)" "fst (fst sub) \<le> snd (fst sub)"
        "snd (fst sub) \<le> obeg + n"
        "substitutions_within (snd (fst sub)) (obeg + n) (drop (Suc (subst_index s)) substs)"
        unfolding dr by simp_all
      have "sub \<in> set substs" unfolding sub_def using i by simp
      with short have sh: "int (length (snd sub)) \<le> snd (fst sub) - fst (fst sub)" by blast
      show ?thesis
      proof (cases "opos s < fst (fst sub)")
        case gap: True
        let ?s' = "copy_gap otext n (fst (fst sub)) s"
        have k: "min (fst (fst sub) - opos s) (n - vpos s) = fst (fst sub) - opos s"
          using vp w by linarith
        have f: "opos ?s' = fst (fst sub)" "subst_index ?s' = subst_index s"
          "vpos ?s' = vpos s + (fst (fst sub) - opos s)"
          by (simp_all add: copy_gap_def copy_text_fields k)
        have "\<exists>r. merge_scan otext obeg n substs ?s' = Some r"
        proof (rule less.hyps)
          show "length substs - subst_index ?s' + nat (obeg + n - opos ?s')
              < length substs - subst_index s + nat (obeg + n - opos s)"
            unfolding f using gap w by linarith
          show "subst_index ?s' \<le> length substs" unfolding f by (rule idx)
          show "substitutions_within (opos ?s') (obeg + n) (drop (subst_index ?s') substs)"
            unfolding f dr using w by simp
          show "opos ?s' \<le> obeg + n" unfolding f using w by linarith
          show "vpos ?s' \<le> opos ?s' - obeg" unfolding f using vp by linarith
          show "\<forall>sub \<in> set substs. int (length (snd sub)) \<le> snd (fst sub) - fst (fst sub)"
            by (rule short)
        qed
        moreover from more i gap
        have "merge_scan otext obeg n substs s = merge_scan otext obeg n substs ?s'"
          by (subst merge_scan.simps) (simp add: sub_def)
        ultimately show ?thesis by simp
      next
        case False
        with w have at: "fst (fst sub) = opos s" by simp
        let ?s' = "conceal_step (fst sub) (snd sub) s"
        have f: "opos ?s' = snd (fst sub)" "subst_index ?s' = Suc (subst_index s)"
          "vpos ?s' = vpos s + int (length (snd sub))"
          by (simp_all add: conceal_step_fields at)
        have "\<exists>r. merge_scan otext obeg n substs ?s' = Some r"
        proof (rule less.hyps)
          show "length substs - subst_index ?s' + nat (obeg + n - opos ?s')
              < length substs - subst_index s + nat (obeg + n - opos s)"
            unfolding f using i w at by linarith
          show "subst_index ?s' \<le> length substs" unfolding f using i by simp
          show "substitutions_within (opos ?s') (obeg + n) (drop (subst_index ?s') substs)"
            unfolding f by (rule w(4))
          show "opos ?s' \<le> obeg + n" unfolding f by (rule w(3))
          show "vpos ?s' \<le> opos ?s' - obeg" unfolding f using vp sh at by linarith
          show "\<forall>sub \<in> set substs. int (length (snd sub)) \<le> snd (fst sub) - fst (fst sub)"
            by (rule short)
        qed
        moreover from more i False
        have "merge_scan otext obeg n substs s = merge_scan otext obeg n substs ?s'"
          by (subst merge_scan.simps) (simp add: sub_def)
        ultimately show ?thesis by simp
      qed
    qed
  qed
qed

text \<open>
  Claim C9, as stated: after the single pass over \<open>[obeg, obeg + n)\<close> the forward mapping
  has \<open>n + 1\<close> entries. Over \<open>[0,2)\<close> of the example document the substitution of
  \<open>[1,3)\<close> begins inside the range and ends beyond it: the forward mapping has four
  entries, not three.
\<close>

theorem C9_straddling_counterexample:
  "compute_text_from_orig_interval example_doc 0 2 = Some (''aX'', [0, 1, 1, 2], [0, 1, 2])"
  by code_simp

text \<open>
  Claim C9, amended: let the range \<open>[obeg, obeg + n)\<close> lie inside the document and the
  merged substitutions be in ascending order, not overlap and lie inside the range.
  When the single pass returns, the forward mapping has one entry per original position
  of the range plus the sentinel \<open>length(viewText)\<close>, \<open>n + 1\<close> entries, and the reverse
  mapping has one entry per view position plus the sentinel \<open>n\<close>,
  \<open>length(viewText) + 1\<close> entries. And the single pass does return when, moreover, no
  replacement is longer than the interval it replaces.
\<close>

theorem C9_mapping_sentinels:
  assumes "0 \<le> obeg" "0 \<le> n" "obeg + n \<le> int (length (doc_text doc))"
    and "substitutions_within obeg (obeg + n) (substitutions_for doc obeg n)"
  shows "(compute_text_from_orig_interval doc obeg n = Some (vtext, o2v, v2o) \<longrightarrow>
            length o2v = nat n + 1 \<and> last o2v = int (length vtext)
            \<and> length v2o = length vtext + 1 \<and> last v2o = n)
       \<and> (list_all (\<lambda>sub. int (length (snd sub)) \<le> snd (fst sub) - fst (fst sub))
             (substitutions_for doc obeg n) \<longrightarrow>
            (\<exists>res. compute_text_from_orig_interval doc obeg n = Some res))"
proof -
  have lengths: "length o2v = nat n + 1 \<and> last o2v = int (length vtext)
            \<and> length v2o = length vtext + 1 \<and> last v2o = n"
    if c: "compute_text_from_orig_interval doc obeg n = Some (vtext, o2v, v2o)"
  proof -
    from c obtain r where
    run: "merge_scan (doc_text doc) obeg n (substitutions_for doc obeg n) (scan_init obeg) = Some r"
    and res: "vtext = concat (vtext_builder r)" "o2v = opos_to_vpos r @ [int (length vtext)]"
      "v2o = vpos_to_opos r @ [n]"
    by (auto simp: compute_text_from_orig_interval_def Let_def split: option.splits)
  have "length (opos_to_vpos r) = nat n
      \<and> length (vpos_to_opos r) = length (concat (vtext_builder r))"
    by (rule scan_lengths[OF run]) (use assms in \<open>simp_all add: scan_init_def\<close>)
    with res show ?thesis by simp
  qed
  have returns: "\<exists>res. compute_text_from_orig_interval doc obeg n = Some res"
    if "list_all (\<lambda>sub. int (length (snd sub)) \<le> snd (fst sub) - fst (fst sub))
             (substitutions_for doc obeg n)"
  proof -
    from that have short: "\<forall>sub \<in> set (substitutions_for doc obeg n).
      int (length (snd sub)) \<le> snd (fst sub) - fst (fst sub)"
    by (simp add: list_all_iff)
  have "\<exists>r. merge_scan (doc_text doc) obeg n (substitutions_for doc obeg n) (scan_init obeg)
          = Some r"
    by (rule scan_returns[OF _ _ _ _ short]) (use assms in \<open>simp_all add: scan_init_def\<close>)
    then show ?thesis
      by (auto simp: compute_text_from_orig_interval_def Let_def)
  qed
  from lengths returns show ?thesis by blast
qed

text \<open>The amended claim C9 on the example document over \<open>[0,6)\<close>.\<close>

theorem C9_mapping_sentinels_witness:
  "substitutions_within 0 (0 + 6) (substitutions_for example_doc 0 6)
   \<and> list_all (\<lambda>sub. int (length (snd sub)) \<le> snd (fst sub) - fst (fst sub))
        (substitutions_for example_doc 0 6)
   \<and> compute_text_from_orig_interval example_doc 0 6
       = Some (''aXdef'', [0, 1, 1, 2, 3, 4, 5], [0, 1, 3, 4, 5, 6])
   \<and> length [0, 1, 1, 2, 3, 4, 5 :: int] = nat 6 + 1
   \<and> last [0, 1, 1, 2, 3, 4, 5] = int (length ''aXdef'')
   \<and> length [0, 1, 3, 4, 5, 6 :: int] = length ''aXdef'' + 1
   \<and> last [0, 1, 3, 4, 5, 6 :: int] = 6"
proof -
  have w: "substitutions_within 0 (0 + 6) (substitutions_for example_doc 0 6)"
    by code_simp
  have s: "list_all (\<lambda>sub. int (length (snd sub)) \<le> snd (fst sub) - fst (fst sub))
        (substitutions_for example_doc 0 6)"
    by code_simp
  have c: "compute_text_from_orig_interval example_doc 0 6
       = Some (''aXdef'', [0, 1, 1, 2, 3, 4, 5], [0, 1, 3, 4, 5, 6])"
    by code_simp
  have l: "0 + 6 \<le> int (length (doc_text example_doc))"
    by (simp add: example_doc_def)
  from C9_mapping_sentinels[OF _ _ l w, of "''aXdef''" "[0, 1, 1, 2, 3, 4, 5]" "[0, 1, 3, 4, 5, 6]"]
    w s c
  show ?thesis by simp
qed

end
